theory Spec2Isabelle
  imports Complex_Main
begin

section \<open>Life-expectancy form: text analysis, table lookup, remaining life\<close>

text \<open>
  A shallow embedding of \<^verbatim>\<open>api.py\<close>. Python \<^verbatim>\<open>str\<close> values are modelled as
  \<^typ>\<open>string\<close>, each \<^typ>\<open>char\<close> standing for the code point of the same number
  (0 to 255, the Latin-1 range, which \<^verbatim>\<open>str.lower\<close> maps into itself). Python
  \<^verbatim>\<open>int\<close> is \<^typ>\<open>int\<close>, Python \<^verbatim>\<open>float\<close> is idealised as \<^typ>\<open>real\<close>
  (rounding, infinities and NaN are outside the model), \<^verbatim>\<open>None\<close> is
  \<^const>\<open>None\<close>, and a raised exception is the \<^const>\<open>Inl\<close> of a sum.
\<close>

subsection \<open>Python string primitives\<close>

definition code_point :: "char \<Rightarrow> nat" where
  "code_point c = of_char c"

text \<open>\<^verbatim>\<open>str.lower\<close> on one code point: A-Z and the Latin-1 capitals (0xC0-0xDE but the
  multiplication sign 0xD7) move up by 32, everything else stays.\<close>

definition lower_char :: "char \<Rightarrow> char" where
  "lower_char c =
     (let n = code_point c
      in if (65 \<le> n \<and> n \<le> 90) \<or> (192 \<le> n \<and> n \<le> 222 \<and> n \<noteq> 215)
         then char_of (n + 32) else c)"

definition lower :: "string \<Rightarrow> string" where
  "lower s = map lower_char s"

text \<open>What \<^verbatim>\<open>str.isspace\<close>, \<^verbatim>\<open>str.strip\<close> and the regular expression class
  \<^verbatim>\<open>\s\<close> take for white space below code point 256.\<close>

definition is_space :: "char \<Rightarrow> bool" where
  "is_space c =
     (let n = code_point c
      in (9 \<le> n \<and> n \<le> 13) \<or> (28 \<le> n \<and> n \<le> 32) \<or> n = 133 \<or> n = 160)"

text \<open>The classes \<^verbatim>\<open>[0-9]\<close> and \<^verbatim>\<open>\d\<close> agree below code point 256.\<close>

definition is_digit :: "char \<Rightarrow> bool" where
  "is_digit c = (let n = code_point c in 48 \<le> n \<and> n \<le> 57)"

definition strip :: "string \<Rightarrow> string" where
  "strip s = rev (dropWhile is_space (rev (dropWhile is_space s)))"

text \<open>\<^verbatim>\<open>p in s\<close> for strings: \<open>p\<close> occurs in \<open>s\<close> as a contiguous block.\<close>

definition startswith :: "string \<Rightarrow> string \<Rightarrow> bool" where
  "startswith s p = (take (length p) s = p)"

fun contains :: "string \<Rightarrow> string \<Rightarrow> bool" where
  "contains [] p = (p = [])"
| "contains (c # s) p = (startswith (c # s) p \<or> contains s p)"

text \<open>\<^verbatim>\<open>s.replace(c, "")\<close> for a one-character \<open>c\<close>.\<close>

definition remove_char :: "char \<Rightarrow> string \<Rightarrow> string" where
  "remove_char c s = filter (\<lambda>x. x \<noteq> c) s"

text \<open>\<^verbatim>\<open>int(m)\<close> on a string of decimal digits.\<close>

definition digit_value :: "char \<Rightarrow> int" where
  "digit_value c = int (code_point c) - 48"

definition int_of_digits :: "string \<Rightarrow> int" where
  "int_of_digits s = foldl (\<lambda>n c. 10 * n + digit_value c) 0 s"

subsection \<open>The two regular expressions\<close>

text \<open>
  \<^verbatim>\<open>re.findall\<close> scans from the left; where the pattern matches it records the group
  and goes on after the match, where it does not it moves one character on. A matcher
  returns the group and the text after the match.

  \<^verbatim>\<open>(19[0-9]{2}|20[0-2][0-9])\<close>: four characters.
\<close>

fun match_year :: "string \<Rightarrow> (string \<times> string) option" where
  "match_year (a # b # c # d # rest) =
     (if (a = CHR ''1'' \<and> b = CHR ''9'' \<and> is_digit c \<and> is_digit d) \<or>
         (a = CHR ''2'' \<and> b = CHR ''0'' \<and> c \<in> set ''012'' \<and> is_digit d)
      then Some ([a, b, c, d], rest) else None)"
| "match_year _ = None"

text \<open>
  \<^verbatim>\<open>(\d{1,3})\s*ans\<close>: the greedy \<^verbatim>\<open>\d{1,3}\<close> is tried with three digits, then two,
  then one; \<^verbatim>\<open>\s*\<close> takes all the white space there is (giving some back cannot
  help, a white-space character is not an \<^verbatim>\<open>a\<close>).
\<close>

definition match_age_digits :: "nat \<Rightarrow> string \<Rightarrow> (string \<times> string) option" where
  "match_age_digits k s =
     (let g = take k s; r = dropWhile is_space (drop k s)
      in if length g = k \<and> list_all is_digit g \<and> startswith r ''ans''
         then Some (g, drop 3 r) else None)"

definition match_age :: "string \<Rightarrow> (string \<times> string) option" where
  "match_age s =
     (case match_age_digits 3 s of
        Some m \<Rightarrow> Some m
      | None \<Rightarrow>
          (case match_age_digits 2 s of
             Some m \<Rightarrow> Some m
           | None \<Rightarrow> match_age_digits 1 s))"

lemma match_year_shorter: "match_year s = Some (g, r) \<Longrightarrow> length r < length s"
  by (induction s rule: match_year.induct) (auto split: if_splits)

lemma match_age_digits_shorter:
  "match_age_digits k s = Some (g, r) \<Longrightarrow> length r < length s"
proof -
  assume m: "match_age_digits k s = Some (g, r)"
  define t where "t = dropWhile is_space (drop k s)"
  from m have r: "r = drop 3 t" and a: "startswith t ''ans''"
    by (auto simp: match_age_digits_def t_def Let_def split: if_splits)
  from a have "3 \<le> length t"
    by (cases t rule: match_year.cases) (auto simp: startswith_def)
  moreover have "length t \<le> length s"
    unfolding t_def using length_dropWhile_le [of is_space "drop k s"] by simp
  ultimately show ?thesis using r by simp
qed

lemma match_age_shorter: "match_age s = Some (g, r) \<Longrightarrow> length r < length s"
  by (auto simp: match_age_def split: option.splits dest: match_age_digits_shorter)

function findall_year :: "string \<Rightarrow> string list" where
  "findall_year [] = []"
| "findall_year (c # s) =
     (case match_year (c # s) of
        Some (g, rest) \<Rightarrow> g # findall_year rest
      | None \<Rightarrow> findall_year s)"
  by pat_completeness auto
termination
  by (relation "measure length") (auto dest: match_year_shorter)

function findall_age :: "string \<Rightarrow> string list" where
  "findall_age [] = []"
| "findall_age (c # s) =
     (case match_age (c # s) of
        Some (g, rest) \<Rightarrow> g # findall_age rest
      | None \<Rightarrow> findall_age s)"
  by pat_completeness auto
termination
  by (relation "measure length") (auto dest: match_age_shorter)

subsection \<open>Text analyser\<close>

text \<open>\<^verbatim>\<open>datetime.now().year\<close> is the parameter \<open>current_year\<close>: one request is taken
  to fall within one calendar year.\<close>

fun first_birth_year :: "int \<Rightarrow> string list \<Rightarrow> int option" where
  "first_birth_year current_year [] = None"
| "first_birth_year current_year (m # ms) =
     (let y = int_of_digits m
      in if 1900 \<le> y \<and> y \<le> current_year then Some y
         else first_birth_year current_year ms)"

definition detect_birth_year :: "int \<Rightarrow> string \<Rightarrow> int option" where
  "detect_birth_year current_year text =
     (let matches = findall_year text
      in if matches = [] then None else first_birth_year current_year matches)"

definition detect_age :: "string \<Rightarrow> int option" where
  "detect_age text =
     (let matches = findall_age text
      in if matches = [] then None
         else
           (let candidates =
                  map int_of_digits
                    (filter (\<lambda>x. 0 < int_of_digits x \<and> int_of_digits x < 120) matches)
            in case candidates of [] \<Rightarrow> None | a # _ \<Rightarrow> Some a))"

definition estimate_age :: "int \<Rightarrow> string \<Rightarrow> int option" where
  "estimate_age current_year text0 =
     (let text = lower text0;
          age_direct = detect_age text;
          birth_year = detect_birth_year current_year text
      in case age_direct of
           Some a \<Rightarrow> Some a
         | None \<Rightarrow>
             (case birth_year of
                Some y \<Rightarrow>
                  (let age = current_year - y
                   in if 0 < age \<and> age < 120 then Some age else None)
              | None \<Rightarrow> None))"

subsection \<open>The dataset and the module's globals\<close>

text \<open>
  The table is what \<^verbatim>\<open>pd.read_csv\<close> delivered, after the column names were
  stripped: the column labels in order, and the rows in file order. A row has its
  location name, year and scenario name (the three columns the code reads by name) and
  one number under every other label. So every location and scenario name is a string,
  every year an integer and every other cell a number, and a label names one column.
\<close>

record row =
  location_name :: string
  year_id :: int
  scenario_name :: string
  cell :: "string \<Rightarrow> real"

record dataframe =
  columns :: "string list"
  rows :: "row list"

datatype error = KeyError | ValueError

text \<open>\<^verbatim>\<open>Series.unique()\<close>: the distinct values in order of first appearance.\<close>

fun unique_from :: "'a list \<Rightarrow> 'a list \<Rightarrow> 'a list" where
  "unique_from seen [] = []"
| "unique_from seen (x # xs) =
     (if x \<in> set seen then unique_from seen xs else x # unique_from (x # seen) xs)"

definition unique :: "'a list \<Rightarrow> 'a list" where
  "unique xs = unique_from [] xs"

record globals =
  df :: dataframe
  AVAILABLE_YEARS :: "int list"
  AVAILABLE_LOCATIONS :: "string list"
  DEFAULT_YEAR :: int

text \<open>The module's top level. \<^verbatim>\<open>max\<close> of an empty list raises \<^verbatim>\<open>ValueError\<close>.\<close>

definition load_globals :: "dataframe \<Rightarrow> error + globals" where
  "load_globals d =
     (let years = sort (unique (map year_id (rows d)));
          locations = unique (map location_name (rows d))
      in if 2023 \<in> set years
         then Inr \<lparr>df = d, AVAILABLE_YEARS = years, AVAILABLE_LOCATIONS = locations,
                   DEFAULT_YEAR = 2023\<rparr>
         else
           (case years of
              [] \<Rightarrow> Inl ValueError
            | y # ys \<Rightarrow>
                Inr \<lparr>df = d, AVAILABLE_YEARS = years, AVAILABLE_LOCATIONS = locations,
                      DEFAULT_YEAR = fold max ys y\<rparr>))"

subsection \<open>Location detection\<close>

fun first_location :: "string \<Rightarrow> string list \<Rightarrow> string option" where
  "first_location text [] = None"
| "first_location text (loc # locs) =
     (if contains text (lower loc) then Some loc else first_location text locs)"

definition detect_location :: "globals \<Rightarrow> string \<Rightarrow> string" where
  "detect_location g text0 =
     (let text = lower text0
      in case first_location text (AVAILABLE_LOCATIONS g) of
           Some loc \<Rightarrow> loc
         | None \<Rightarrow>
             if contains text ''france'' then ''France''
             else if contains text ''italie'' \<or> contains text ''italy'' then ''Italy''
             else if contains text ''espagne'' \<or> contains text ''spain'' then ''Spain''
             else if contains text ''allemagne'' \<or> contains text ''germany''
             then ''Germany''
             else ''Global'')"

subsection \<open>Life-expectancy resolver\<close>

definition normalize_column :: "string \<Rightarrow> string" where
  "normalize_column col = remove_char CHR ''_'' (remove_char CHR '' '' (lower col))"

definition is_years_column :: "string \<Rightarrow> bool" where
  "is_years_column col =
     (let col_norm = normalize_column col
      in contains col_norm ''expectancy'' \<and> contains col_norm ''year'')"

definition is_weeks_column :: "string \<Rightarrow> bool" where
  "is_weeks_column col =
     (let col_norm = normalize_column col
      in contains col_norm ''expectancy'' \<and> contains col_norm ''week'')"

text \<open>The loop over \<^verbatim>\<open>df.columns\<close>, with the two variables it assigns as its state.\<close>

fun scan_columns ::
  "string list \<Rightarrow> string option \<times> string option \<Rightarrow> string option \<times> string option"
where
  "scan_columns [] (years_col, weeks_col) = (years_col, weeks_col)"
| "scan_columns (col # cols) (years_col, weeks_col) =
     scan_columns cols
       (if is_years_column col then Some col else years_col,
        if is_weeks_column col then Some col else weeks_col)"

definition get_life_expectancy ::
  "globals \<Rightarrow> string \<Rightarrow> int option \<Rightarrow> error + (real \<times> real) option"
where
  "get_life_expectancy g location year0 =
     (let year = (case year0 of None \<Rightarrow> DEFAULT_YEAR g | Some y \<Rightarrow> y);
          tmp = filter (\<lambda>r. lower (location_name r) = lower location) (rows (df g))
      in if tmp = [] then Inr None
         else
           (case filter (\<lambda>r. year_id r = year \<and> scenario_name r = ''Reference'') tmp of
              [] \<Rightarrow> Inr None
            | row # _ \<Rightarrow>
                (case scan_columns (columns (df g)) (None, None) of
                   (Some years_col, Some weeks_col) \<Rightarrow>
                     Inr (Some (cell row years_col, cell row weeks_col))
                 | _ \<Rightarrow> Inl KeyError)))"

subsection \<open>Remaining life\<close>

text \<open>Python's \<^verbatim>\<open>max(a, b)\<close> keeps \<open>a\<close> unless \<open>b\<close> is greater; \<^verbatim>\<open>int(x)\<close> on a
  float drops the fraction (rounds toward zero).\<close>

definition py_max :: "'a::linorder \<Rightarrow> 'a \<Rightarrow> 'a" where
  "py_max a b = (if b > a then b else a)"

definition py_int :: "real \<Rightarrow> int" where
  "py_int x = (if x < 0 then \<lceil>x\<rceil> else \<lfloor>x\<rfloor>)"

definition compute_remaining_life :: "'a::linordered_idom \<Rightarrow> 'a \<Rightarrow> 'a \<times> 'a" where
  "compute_remaining_life expectancy_years age =
     (let remaining_years = py_max (expectancy_years - age) 0;
          remaining_weeks = remaining_years * 52
      in (remaining_years, remaining_weeks))"

subsection \<open>The request handler\<close>

text \<open>
  The handler's input is the request (its method, the form fields \<^verbatim>\<open>action\<close> and
  \<^verbatim>\<open>user_text\<close>, the file name of the \<^verbatim>\<open>photo\<close> part); its output is what it
  hands to \<^verbatim>\<open>render_template\<close>, or the exception that escapes it. The three warning
  messages are constructors; the narrative of \<^verbatim>\<open>generate_text_from_image\<close> is the
  constructor \<open>Generated\<close>. Writing the uploaded file is not modelled.
\<close>

record request =
  request_method :: string
  action :: "string option"
  user_text :: "string option"
  photo :: "string option"

datatype warning = NoPhoto | NoText | NoData string

datatype form_text = Typed string | Generated

record analysis =
  location :: string
  year :: int
  life_expectancy_years :: real
  life_expectancy_weeks :: int
  age :: "int option"
  remaining_years :: "real option"
  remaining_weeks :: "int option"

record response =
  result :: "analysis option"
  warning :: "warning option"
  input_text :: form_text

text \<open>The branch of \<^verbatim>\<open>index\<close> for the action \<^verbatim>\<open>predict\<close>, on the submitted text.\<close>

definition predict :: "globals \<Rightarrow> int \<Rightarrow> string \<Rightarrow> error + response" where
  "predict g current_year text =
     (if strip text = [] then
        Inr \<lparr>result = None, warning = Some NoText, input_text = Typed text\<rparr>
      else
        (let location = detect_location g text;
             age = estimate_age current_year text
         in case get_life_expectancy g location None of
              Inl e \<Rightarrow> Inl e
            | Inr None \<Rightarrow>
                Inr \<lparr>result = None, warning = Some (NoData location),
                      input_text = Typed text\<rparr>
            | Inr (Some (years, weeks)) \<Rightarrow>
                Inr \<lparr>result = Some
                       \<lparr>location = location,
                        year = DEFAULT_YEAR g,
                        life_expectancy_years = years,
                        life_expectancy_weeks = py_int weeks,
                        age = age,
                        remaining_years =
                          (case age of
                             Some a \<Rightarrow> Some (fst (compute_remaining_life years (of_int a)))
                           | None \<Rightarrow> None),
                        remaining_weeks =
                          (case age of
                             Some a \<Rightarrow>
                               Some (py_int (snd (compute_remaining_life years (of_int a))))
                           | None \<Rightarrow> None)\<rparr>,
                      warning = None, input_text = Typed text\<rparr>))"

definition index :: "globals \<Rightarrow> int \<Rightarrow> request \<Rightarrow> error + response" where
  "index g current_year req =
     (if request_method req = ''POST'' then
        (let text = (case user_text req of None \<Rightarrow> [] | Some t \<Rightarrow> t)
         in if action req = Some ''analyze_photo'' then
              (if (case photo req of None \<Rightarrow> False | Some filename \<Rightarrow> filename \<noteq> [])
               then Inr \<lparr>result = None, warning = None, input_text = Generated\<rparr>
               else Inr \<lparr>result = None, warning = Some NoPhoto, input_text = Typed text\<rparr>)
            else if action req = Some ''predict'' then predict g current_year text
            else Inr \<lparr>result = None, warning = None, input_text = Typed text\<rparr>)
      else Inr \<lparr>result = None, warning = None, input_text = Typed []\<rparr>)"

subsection \<open>Sample data\<close>

text \<open>
  A small table with three columns whose normalised names hold \<open>expectancy\<close>: two with
  \<open>year\<close>, one with \<open>week\<close>. France has a row for 2022, and for 2023 one row of
  another scenario before its \<open>Reference\<close> row. All numbers are binary fractions.
\<close>

definition demo_columns :: "string list" where
  "demo_columns =
     [''location_name'', ''year_id'', ''scenario_name'',
      ''Life expectancy (years)'', ''life_expectancy_weeks'', ''Life_Expectancy_Years_2'']"

definition demo_row :: "string \<Rightarrow> int \<Rightarrow> string \<Rightarrow> real \<Rightarrow> row" where
  "demo_row loc y sc e =
     \<lparr>location_name = loc, year_id = y, scenario_name = sc,
      cell = (\<lambda>col. if col = ''Life expectancy (years)'' then e - 1
                     else if col = ''Life_Expectancy_Years_2'' then e
                     else if col = ''life_expectancy_weeks'' then e * 52
                     else 0)\<rparr>"

definition demo_rows :: "row list" where
  "demo_rows =
     [demo_row ''Italy'' 2023 ''Reference'' 83,
      demo_row ''France'' 2022 ''Reference'' 82,
      demo_row ''France'' 2023 ''Better'' (675 / 8),
      demo_row ''France'' 2023 ''Reference'' (657 / 8),
      demo_row ''Global'' 2023 ''Reference'' 73]"

definition demo_globals :: globals where
  "demo_globals =
     \<lparr>df = \<lparr>columns = demo_columns, rows = demo_rows\<rparr>,
      AVAILABLE_YEARS = [2022, 2023],
      AVAILABLE_LOCATIONS = [''Italy'', ''France'', ''Global''],
      DEFAULT_YEAR = 2023\<rparr>"

text \<open>The same rows under a header with no expectancy column.\<close>

definition bare_globals :: globals where
  "bare_globals =
     \<lparr>df = \<lparr>columns = [''location_name'', ''year_id'', ''scenario_name'', ''value''],
            rows = demo_rows\<rparr>,
      AVAILABLE_YEARS = [2022, 2023],
      AVAILABLE_LOCATIONS = [''Italy'', ''France'', ''Global''],
      DEFAULT_YEAR = 2023\<rparr>"

text \<open>A request that states an age in capitals and names a location of the table,
  and the analysis the handler builds for it; a request whose text is white space only,
  one with no text field, and one that names a location only.\<close>

definition demo_request :: request where
  "demo_request =
     \<lparr>request_method = ''POST'', action = Some ''predict'',
      user_text = Some ''J ai 30 ANS, je vis en France'', photo = None\<rparr>"

definition blank_request :: request where
  "blank_request =
     \<lparr>request_method = ''POST'', action = Some ''predict'',
      user_text = Some [CHR '' '', CHR 0x09, CHR 0x0A], photo = None\<rparr>"

definition textless_request :: request where
  "textless_request =
     \<lparr>request_method = ''POST'', action = Some ''predict'', user_text = None,
      photo = None\<rparr>"

definition france_request :: request where
  "france_request =
     \<lparr>request_method = ''POST'', action = Some ''predict'', user_text = Some ''France'',
      photo = None\<rparr>"

definition demo_analysis :: analysis where
  "demo_analysis =
     \<lparr>location = ''France'', year = 2023, life_expectancy_years = 657 / 8,
      life_expectancy_weeks = 4270, age = Some 30, remaining_years = Some (417 / 8),
      remaining_weeks = Some 2710\<rparr>"

section \<open>Properties\<close>

subsection \<open>Strings\<close>

lemma lower_char_idem: "lower_char (lower_char c) = lower_char c"
proof (cases "(65 \<le> code_point c \<and> code_point c \<le> 90) \<or>
    (192 \<le> code_point c \<and> code_point c \<le> 222 \<and> code_point c \<noteq> 215)")
  case True
  then have 1: "lower_char c = char_of (code_point c + 32)"
    by (simp add: lower_char_def)
  have 2: "code_point (char_of (code_point c + 32)) = code_point c + 32"
    using True by (auto simp: code_point_def)
  show ?thesis unfolding 1 using True 2 by (auto simp: lower_char_def Let_def)
next
  case False
  then have "lower_char c = c" by (auto simp: lower_char_def Let_def)
  then show ?thesis by simp
qed

lemma lower_idem: "lower (lower s) = lower s"
  by (simp add: lower_def lower_char_idem)

lemma contains_prepend: "contains s p \<Longrightarrow> contains (pre @ s) p"
  by (induction pre) simp_all

lemma contains_block: "contains (pre @ p @ post) p"
proof -
  have "startswith (p @ post) p" by (simp add: startswith_def)
  then have "contains (p @ post) p" by (cases "p @ post") (auto simp: startswith_def)
  then show ?thesis by (rule contains_prepend)
qed

lemma digit_value_range: "is_digit c \<Longrightarrow> 0 \<le> digit_value c \<and> digit_value c \<le> 9"
  by (auto simp: is_digit_def digit_value_def Let_def)

lemma find_cong_set: "(\<And>x. x \<in> set xs \<Longrightarrow> P x = Q x) \<Longrightarrow> find P xs = find Q xs"
  by (induction xs) simp_all

subsection \<open>Birth year\<close>

lemma first_birth_year_find:
  "first_birth_year cy ms = find (\<lambda>y. 1900 \<le> y \<and> y \<le> cy) (map int_of_digits ms)"
  by (induction ms) (simp_all add: Let_def)

lemma match_year_Some:
  assumes "match_year s = Some (g, r)"
  shows "s = g @ r \<and> length g = 4 \<and> 1900 \<le> int_of_digits g \<and> int_of_digits g \<le> 2029"
proof -
  from assms obtain a b c d where s: "s = a # b # c # d # r" and g: "g = [a, b, c, d]"
    and p: "(a = CHR ''1'' \<and> b = CHR ''9'' \<and> is_digit c \<and> is_digit d) \<or>
         (a = CHR ''2'' \<and> b = CHR ''0'' \<and> c \<in> set ''012'' \<and> is_digit d)"
    by (cases s rule: match_year.cases) (auto split: if_splits)
  have v: "int_of_digits g =
      1000 * digit_value a + 100 * digit_value b + 10 * digit_value c + digit_value d"
    by (simp add: g int_of_digits_def)
  from p have "1900 \<le> int_of_digits g \<and> int_of_digits g \<le> 2029"
  proof
    assume h: "a = CHR ''1'' \<and> b = CHR ''9'' \<and> is_digit c \<and> is_digit d"
    then have "digit_value a = 1" "digit_value b = 9"
      by (simp_all add: digit_value_def code_point_def)
    with h digit_value_range [of c] digit_value_range [of d] v show ?thesis by simp
  next
    assume h: "a = CHR ''2'' \<and> b = CHR ''0'' \<and> c \<in> set ''012'' \<and> is_digit d"
    then have "digit_value a = 2" "digit_value b = 0"
      "0 \<le> digit_value c \<and> digit_value c \<le> 2"
      by (auto simp add: digit_value_def code_point_def)
    with h digit_value_range [of d] v show ?thesis by simp
  qed
  with s g show ?thesis by simp
qed

lemma findall_year_members:
  "m \<in> set (findall_year s) \<Longrightarrow>
     length m = 4 \<and> contains s m \<and> 1900 \<le> int_of_digits m \<and> int_of_digits m \<le> 2029"
proof (induction s rule: findall_year.induct)
  case 1
  then show ?case by simp
next
  case (2 c s)
  show ?case
  proof (cases "match_year (c # s)")
    case None
    with 2 have "length m = 4 \<and> contains s m \<and>
        1900 \<le> int_of_digits m \<and> int_of_digits m \<le> 2029"
      by simp
    then show ?thesis by simp
  next
    case (Some gr)
    obtain g r where gr: "gr = (g, r)" by (cases gr)
    note ms = match_year_Some [OF Some [unfolded gr]]
    from "2.prems" Some gr have "m = g \<or> m \<in> set (findall_year r)" by simp
    then show ?thesis
    proof
      assume "m = g"
      with ms contains_block [of "[]" g r] show ?thesis by simp
    next
      assume "m \<in> set (findall_year r)"
      with "2.IH"(2) Some gr
      have ih: "length m = 4 \<and> contains r m \<and>
          1900 \<le> int_of_digits m \<and> int_of_digits m \<le> 2029"
        by simp
      from ih contains_prepend [of r m g] ms show ?thesis by simp
    qed
  qed
qed

text \<open>
  C3 (as amended). \<open>detect_birth_year\<close> takes the matches of the year pattern from left to
  right, without overlap; each is a four-character block of the text that reads as a
  number from 1900 to 2029. It returns the first match that is not after the current
  year (the first whose age is not negative), and nothing if there is none. The lower
  bound the code tests is 1900, which every match meets; no upper bound on the age is
  tested here.
\<close>

theorem detect_birth_year_first_not_after_now:
  "detect_birth_year cy text =
     find (\<lambda>y. y \<le> cy) (map int_of_digits (findall_year text)) \<and>
   (\<forall>m \<in> set (findall_year text).
      length m = 4 \<and> contains text m \<and> 1900 \<le> int_of_digits m \<and> int_of_digits m \<le> 2029)"
proof -
  have "find (\<lambda>y. 1900 \<le> y \<and> y \<le> cy) (map int_of_digits (findall_year text)) =
        find (\<lambda>y. y \<le> cy) (map int_of_digits (findall_year text))"
    by (rule find_cong_set) (auto dest: findall_year_members)
  moreover have "detect_birth_year cy text =
      find (\<lambda>y. 1900 \<le> y \<and> y \<le> cy) (map int_of_digits (findall_year text))"
    by (simp add: detect_birth_year_def first_birth_year_find Let_def)
  ultimately show ?thesis by (auto dest: findall_year_members)
qed

theorem detect_birth_year_first_not_after_now_witness:
  "findall_year ''2028 ou 19853'' = [''2028'', ''1985''] \<and>
   detect_birth_year 2026 ''2028 ou 19853'' = Some 1985 \<and>
   contains ''2028 ou 19853'' ''1985''"
proof -
  have f: "findall_year ''2028 ou 19853'' = [''2028'', ''1985'']" by code_simp
  show ?thesis
    using detect_birth_year_first_not_after_now [of 2026 "''2028 ou 19853''"]
    unfolding f by (simp add: int_of_digits_def digit_value_def code_point_def)
qed

text \<open>
  C3 as stated fails: read in 2026, the text \<open>1900\<close> gives the birth year 1900, an age
  of 126.
\<close>

theorem detect_birth_year_age_over_120:
  "detect_birth_year 2026 ''1900'' = Some 1900 \<and> \<not> (2026 - 1900 \<le> (120::int))"
  by code_simp

subsection \<open>Case of the text\<close>

text \<open>
  C9. \<open>estimate_age\<close> gives the same answer for a text and for its lower-cased form: it
  lower-cases the text itself before anything else, and lower-casing twice is lower-casing
  once. The text \<open>30 ANS\<close> gives 30 through \<open>estimate_age\<close>, and nothing through
  \<open>detect_age\<close> applied to it as it is.
\<close>

theorem estimate_age_case_insensitive:
  "estimate_age cy text = estimate_age cy (lower text) \<and>
   estimate_age cy ''30 ANS'' = Some 30 \<and>
   detect_age ''30 ANS'' = None"
proof -
  have a: "detect_age (lower ''30 ANS'') = Some 30" by code_simp
  have b: "detect_age ''30 ANS'' = None" by code_simp
  show ?thesis using a b by (simp add: estimate_age_def lower_idem)
qed

subsection \<open>Remaining life\<close>

text \<open>
  C5. \<open>compute_remaining_life e a\<close> is the pair of \<open>max (e - a) 0\<close> and 52 times that, for
  integers and for reals alike; it is a total function with no error value; at 80 and 30
  it is (50, 2600).
\<close>

theorem compute_remaining_life_max:
  "compute_remaining_life e a = (max (e - a) 0, max (e - a) 0 * 52) \<and>
   compute_remaining_life (80::int) 30 = (50, 2600) \<and>
   compute_remaining_life (80::real) 30 = (50, 2600)"
  by (simp add: compute_remaining_life_def py_max_def max_def)

subsection \<open>Life-expectancy lookup\<close>

lemma scan_columns_last:
  "scan_columns cols (y0, w0) =
     (if filter is_years_column cols = [] then y0
      else Some (last (filter is_years_column cols)),
      if filter is_weeks_column cols = [] then w0
      else Some (last (filter is_weeks_column cols)))"
  by (induction cols arbitrary: y0 w0) simp_all

lemma filter_filter_find:
  "(case filter Q (filter P xs) of [] \<Rightarrow> a | r # _ \<Rightarrow> f r) =
   (case find (\<lambda>r. P r \<and> Q r) xs of None \<Rightarrow> a | Some r \<Rightarrow> f r)"
  by (induction xs) (simp_all del: filter_filter)

lemma get_life_expectancy_cases:
  "get_life_expectancy g loc yr =
     (case filter (\<lambda>r. year_id r = (case yr of None \<Rightarrow> DEFAULT_YEAR g | Some y \<Rightarrow> y) \<and>
                       scenario_name r = ''Reference'')
             (filter (\<lambda>r. lower (location_name r) = lower loc) (rows (df g))) of
        [] \<Rightarrow> Inr None
      | row # _ \<Rightarrow>
          (case scan_columns (columns (df g)) (None, None) of
             (Some years_col, Some weeks_col) \<Rightarrow>
               Inr (Some (cell row years_col, cell row weeks_col))
           | _ \<Rightarrow> Inl KeyError))"
proof (cases "filter (\<lambda>r. lower (location_name r) = lower loc) (rows (df g)) = []")
  case True
  then show ?thesis by (simp add: get_life_expectancy_def Let_def del: filter_filter)
next
  case False
  then show ?thesis by (simp add: get_life_expectancy_def Let_def del: filter_filter)
qed

lemma demo_scan:
  "scan_columns demo_columns (None, None) =
     (Some ''Life_Expectancy_Years_2'', Some ''life_expectancy_weeks'')"
  by code_simp

lemma demo_lower:
  "lower ''France'' = ''france''" "lower ''FRANCE'' = ''france''"
  "lower ''Italy'' = ''italy''" "lower ''Global'' = ''global''"
  "lower ''Fran'' = ''fran''" "lower ''Atlantis'' = ''atlantis''"
  "lower ''global'' = ''global''"
  by code_simp+

text \<open>
  C1. On a table whose two expectancy columns are found, \<open>get_life_expectancy\<close> keeps the
  rows whose location name equals the given one once both are lower-cased, of those the
  rows of the given year (the default year when none is given) and of scenario
  \<open>Reference\<close>, and returns the two expectancy values of the first row left, or nothing
  when no row is left. That row is the first row of the table that meets the three
  conditions.
\<close>

theorem get_life_expectancy_first_reference_row:
  assumes "scan_columns (columns (df g)) (None, None) = (Some years_col, Some weeks_col)"
  shows "get_life_expectancy g loc yr =
     (case filter (\<lambda>r. year_id r = (case yr of None \<Rightarrow> DEFAULT_YEAR g | Some y \<Rightarrow> y) \<and>
                       scenario_name r = ''Reference'')
             (filter (\<lambda>r. lower (location_name r) = lower loc) (rows (df g))) of
        [] \<Rightarrow> Inr None
      | row # _ \<Rightarrow> Inr (Some (cell row years_col, cell row weeks_col))) \<and>
    get_life_expectancy g loc yr =
     (case find (\<lambda>r. lower (location_name r) = lower loc \<and>
                     year_id r = (case yr of None \<Rightarrow> DEFAULT_YEAR g | Some y \<Rightarrow> y) \<and>
                     scenario_name r = ''Reference'') (rows (df g)) of
        None \<Rightarrow> Inr None
      | Some row \<Rightarrow> Inr (Some (cell row years_col, cell row weeks_col)))"
proof -
  have 1: "get_life_expectancy g loc yr =
     (case filter (\<lambda>r. year_id r = (case yr of None \<Rightarrow> DEFAULT_YEAR g | Some y \<Rightarrow> y) \<and>
                       scenario_name r = ''Reference'')
             (filter (\<lambda>r. lower (location_name r) = lower loc) (rows (df g))) of
        [] \<Rightarrow> Inr None
      | row # _ \<Rightarrow> Inr (Some (cell row years_col, cell row weeks_col)))"
    unfolding get_life_expectancy_cases assms
    by (simp split: list.splits del: filter_filter)
  show ?thesis
    unfolding 1 by (simp add: filter_filter_find del: filter_filter)
qed

theorem get_life_expectancy_first_reference_row_witness:
  "scan_columns (columns (df demo_globals)) (None, None) =
     (Some ''Life_Expectancy_Years_2'', Some ''life_expectancy_weeks'') \<and>
   get_life_expectancy demo_globals ''France'' (Some 2023) =
     Inr (Some (657 / 8, 657 / 8 * 52)) \<and>
   get_life_expectancy demo_globals ''FRANCE'' None = Inr (Some (657 / 8, 657 / 8 * 52)) \<and>
   get_life_expectancy demo_globals ''France'' (Some 2024) = Inr None \<and>
   get_life_expectancy demo_globals ''Fran'' (Some 2023) = Inr None"
proof -
  have s: "scan_columns (columns (df demo_globals)) (None, None) =
     (Some ''Life_Expectancy_Years_2'', Some ''life_expectancy_weeks'')"
    by (simp add: demo_globals_def demo_scan)
  show ?thesis
    using s
      get_life_expectancy_first_reference_row [OF s, of "''France''" "Some 2023"]
      get_life_expectancy_first_reference_row [OF s, of "''FRANCE''" None]
      get_life_expectancy_first_reference_row [OF s, of "''France''" "Some 2024"]
      get_life_expectancy_first_reference_row [OF s, of "''Fran''" "Some 2023"]
    by (simp add: demo_globals_def demo_rows_def demo_row_def demo_lower)
qed

lemma scan_columns_missing:
  "(fst (scan_columns cols (None, None)) = None \<longleftrightarrow>
      (\<forall>col \<in> set cols. \<not> is_years_column col)) \<and>
   (snd (scan_columns cols (None, None)) = None \<longleftrightarrow>
      (\<forall>col \<in> set cols. \<not> is_weeks_column col))"
  by (simp add: scan_columns_last filter_empty_conv)

lemma bare_scan: "scan_columns (columns (df bare_globals)) (None, None) = (None, None)"
  unfolding bare_globals_def by code_simp

text \<open>
  C6 (as amended). \<open>get_life_expectancy\<close> returns nothing exactly when no row is left
  after the location filter and the year and scenario filter, whether or not the
  expectancy columns can be found. It raises \<open>KeyError\<close> exactly when a row is left and
  no column is a years column or no column is a weeks column. It raises nothing else.
\<close>

theorem get_life_expectancy_absent_or_key_error:
  "(get_life_expectancy g loc yr = Inr None \<longleftrightarrow>
      filter (\<lambda>r. year_id r = (case yr of None \<Rightarrow> DEFAULT_YEAR g | Some y \<Rightarrow> y) \<and>
                   scenario_name r = ''Reference'')
        (filter (\<lambda>r. lower (location_name r) = lower loc) (rows (df g))) = []) \<and>
   (get_life_expectancy g loc yr = Inl KeyError \<longleftrightarrow>
      filter (\<lambda>r. year_id r = (case yr of None \<Rightarrow> DEFAULT_YEAR g | Some y \<Rightarrow> y) \<and>
                   scenario_name r = ''Reference'')
        (filter (\<lambda>r. lower (location_name r) = lower loc) (rows (df g))) \<noteq> [] \<and>
      ((\<forall>col \<in> set (columns (df g)). \<not> is_years_column col) \<or>
       (\<forall>col \<in> set (columns (df g)). \<not> is_weeks_column col))) \<and>
   get_life_expectancy g loc yr \<noteq> Inl ValueError"
proof -
  obtain yc wc where sc: "scan_columns (columns (df g)) (None, None) = (yc, wc)"
    by (cases "scan_columns (columns (df g)) (None, None)")
  from scan_columns_missing [of "columns (df g)"] sc
  have m: "(yc = None) = (\<forall>col \<in> set (columns (df g)). \<not> is_years_column col)"
    "(wc = None) = (\<forall>col \<in> set (columns (df g)). \<not> is_weeks_column col)"
    by simp_all
  show ?thesis
    unfolding get_life_expectancy_cases sc m [symmetric]
    by (cases yc; cases wc) (simp_all split: list.splits del: filter_filter)
qed

theorem get_life_expectancy_absent_or_key_error_witness:
  "get_life_expectancy bare_globals ''France'' (Some 2023) = Inl KeyError \<and>
   get_life_expectancy bare_globals ''France'' (Some 1999) = Inr None \<and>
   get_life_expectancy demo_globals ''Atlantis'' None = Inr None"
proof -
  have n: "\<forall>col \<in> set (columns (df bare_globals)). \<not> is_years_column col"
    using scan_columns_missing [of "columns (df bare_globals)"] bare_scan by simp
  show ?thesis
    using get_life_expectancy_absent_or_key_error [of bare_globals "''France''" "Some 2023"]
      get_life_expectancy_absent_or_key_error [of bare_globals "''France''" "Some 1999"]
      get_life_expectancy_absent_or_key_error [of demo_globals "''Atlantis''" None] n
    by (simp add: bare_globals_def demo_globals_def demo_rows_def demo_row_def demo_lower)
qed

text \<open>
  C6 as stated fails: under a header with no expectancy column, a location that is not
  in the table gives nothing, not a lookup error.
\<close>

theorem get_life_expectancy_absent_without_columns:
  "scan_columns (columns (df bare_globals)) (None, None) = (None, None) \<and>
   get_life_expectancy bare_globals ''Atlantis'' (Some 2023) = Inr None"
  using bare_scan
  by (simp add: get_life_expectancy_def bare_globals_def demo_rows_def demo_row_def demo_lower)

text \<open>
  C10. When a row is left and each kind of expectancy column occurs at least once, the
  scan ends with the last years column and the last weeks column in column order, and
  the values returned are that row's values under these two labels. The function has no
  state of its own: every call scans the columns of the table it is given.
\<close>

theorem get_life_expectancy_last_matching_column:
  assumes "filter (\<lambda>r. year_id r = (case yr of None \<Rightarrow> DEFAULT_YEAR g | Some y \<Rightarrow> y) \<and>
                   scenario_name r = ''Reference'')
        (filter (\<lambda>r. lower (location_name r) = lower loc) (rows (df g))) = row # others"
    and "filter is_years_column (columns (df g)) \<noteq> []"
    and "filter is_weeks_column (columns (df g)) \<noteq> []"
  shows "scan_columns (columns (df g)) (None, None) =
      (Some (last (filter is_years_column (columns (df g)))),
       Some (last (filter is_weeks_column (columns (df g))))) \<and>
    get_life_expectancy g loc yr =
      Inr (Some (cell row (last (filter is_years_column (columns (df g)))),
                 cell row (last (filter is_weeks_column (columns (df g))))))"
  unfolding get_life_expectancy_cases assms(1) using assms(2,3)
  by (simp add: scan_columns_last)

lemma demo_years_columns:
  "filter is_years_column demo_columns = [''Life expectancy (years)'', ''Life_Expectancy_Years_2'']"
  "filter is_weeks_column demo_columns = [''life_expectancy_weeks'']"
  by code_simp+

theorem get_life_expectancy_last_matching_column_witness:
  "filter is_years_column (columns (df demo_globals)) =
     [''Life expectancy (years)'', ''Life_Expectancy_Years_2''] \<and>
   filter is_weeks_column (columns (df demo_globals)) = [''life_expectancy_weeks''] \<and>
   get_life_expectancy demo_globals ''global'' None = Inr (Some (73, 73 * 52)) \<and>
   cell (demo_row ''Global'' 2023 ''Reference'' 73) ''Life expectancy (years)'' = 72"
proof -
  have c: "columns (df demo_globals) = demo_columns" by (simp add: demo_globals_def)
  have r: "filter
        (\<lambda>r. year_id r = (case None of None \<Rightarrow> DEFAULT_YEAR demo_globals | Some y \<Rightarrow> y) \<and>
             scenario_name r = ''Reference'')
        (filter (\<lambda>r. lower (location_name r) = lower ''global'')
           (rows (df demo_globals))) =
      demo_row ''Global'' 2023 ''Reference'' 73 # []"
    by (simp add: demo_globals_def demo_rows_def demo_row_def demo_lower)
  show ?thesis
    using get_life_expectancy_last_matching_column [OF r] unfolding c demo_years_columns
    by (simp add: demo_row_def)
qed

subsection \<open>Location detection\<close>

lemma first_location_find:
  "first_location text locs = find (\<lambda>l. contains text (lower l)) locs"
  by (induction locs) simp_all

lemma find_unique_from:
  "\<forall>x \<in> set seen. \<not> P x \<Longrightarrow> find P (unique_from seen xs) = find P xs"
  by (induction xs arbitrary: seen) auto

lemma find_unique: "find P (unique xs) = find P xs"
  by (simp add: unique_def find_unique_from)

lemma find_map_option: "find P (map f xs) = map_option f (find (\<lambda>x. P (f x)) xs)"
  by (induction xs) simp_all

lemma load_globals_Inr:
  "load_globals d = Inr g \<Longrightarrow>
     df g = d \<and> AVAILABLE_LOCATIONS g = unique (map location_name (rows d))"
  by (auto simp: load_globals_def Let_def split: if_splits list.splits)

lemma demo_load: "load_globals \<lparr>columns = demo_columns, rows = demo_rows\<rparr> = Inr demo_globals"
  by (simp add: load_globals_def demo_globals_def demo_rows_def demo_row_def unique_def Let_def)

text \<open>
  C4. With the globals as the module builds them from a table, \<open>detect_location\<close>
  returns the first name in \<open>AVAILABLE_LOCATIONS\<close> whose lower-cased form occurs in the
  lower-cased text, which is the location name of the first row of the table with that
  property. If there is none it returns \<open>France\<close>, \<open>Italy\<close>, \<open>Spain\<close> or \<open>Germany\<close> for the
  first keyword group that occurs, in this order, and \<open>Global\<close> otherwise. The result is
  always a string.
\<close>

theorem detect_location_first_match:
  assumes "load_globals d = Inr g"
  shows "detect_location g text =
     (case find (\<lambda>l. contains (lower text) (lower l)) (AVAILABLE_LOCATIONS g) of
        Some l \<Rightarrow> l
      | None \<Rightarrow>
          if contains (lower text) ''france'' then ''France''
          else if contains (lower text) ''italie'' \<or> contains (lower text) ''italy''
          then ''Italy''
          else if contains (lower text) ''espagne'' \<or> contains (lower text) ''spain''
          then ''Spain''
          else if contains (lower text) ''allemagne'' \<or> contains (lower text) ''germany''
          then ''Germany''
          else ''Global'') \<and>
    find (\<lambda>l. contains (lower text) (lower l)) (AVAILABLE_LOCATIONS g) =
      map_option location_name
        (find (\<lambda>r. contains (lower text) (lower (location_name r))) (rows d))"
proof -
  from load_globals_Inr [OF assms]
  have "AVAILABLE_LOCATIONS g = unique (map location_name (rows d))" by simp
  then have "find (\<lambda>l. contains (lower text) (lower l)) (AVAILABLE_LOCATIONS g) =
      map_option location_name
        (find (\<lambda>r. contains (lower text) (lower (location_name r))) (rows d))"
    by (simp add: find_unique find_map_option)
  then show ?thesis
    by (simp add: detect_location_def first_location_find Let_def)
qed

theorem detect_location_first_match_witness:
  "load_globals \<lparr>columns = demo_columns, rows = demo_rows\<rparr> = Inr demo_globals \<and>
   detect_location demo_globals ''Je vis en FRANCE, pas en Italy'' = ''Italy'' \<and>
   detect_location demo_globals ''Ich wohne in Spain'' = ''Spain'' \<and>
   detect_location demo_globals ''42 ans'' = ''Global''"
proof -
  have a: "find (\<lambda>l. contains (lower ''Je vis en FRANCE, pas en Italy'') (lower l))
      (AVAILABLE_LOCATIONS demo_globals) = Some ''Italy''"
    unfolding demo_globals_def by code_simp
  have b: "find (\<lambda>l. contains (lower ''Ich wohne in Spain'') (lower l))
      (AVAILABLE_LOCATIONS demo_globals) = None"
    unfolding demo_globals_def by code_simp
  have b': "\<not> contains (lower ''Ich wohne in Spain'') ''france''"
    "\<not> contains (lower ''Ich wohne in Spain'') ''italie''"
    "\<not> contains (lower ''Ich wohne in Spain'') ''italy''"
    "\<not> contains (lower ''Ich wohne in Spain'') ''espagne''"
    "contains (lower ''Ich wohne in Spain'') ''spain''"
    by code_simp+
  have c: "find (\<lambda>l. contains (lower ''42 ans'') (lower l))
      (AVAILABLE_LOCATIONS demo_globals) = None"
    unfolding demo_globals_def by code_simp
  have c': "\<not> contains (lower ''42 ans'') ''france''"
    "\<not> contains (lower ''42 ans'') ''italie''"
    "\<not> contains (lower ''42 ans'') ''italy''"
    "\<not> contains (lower ''42 ans'') ''espagne''"
    "\<not> contains (lower ''42 ans'') ''spain''"
    "\<not> contains (lower ''42 ans'') ''allemagne''"
    "\<not> contains (lower ''42 ans'') ''germany''"
    by code_simp+
  show ?thesis
    using demo_load
      detect_location_first_match [OF demo_load, of "''Je vis en FRANCE, pas en Italy''"]
      detect_location_first_match [OF demo_load, of "''Ich wohne in Spain''"]
      detect_location_first_match [OF demo_load, of "''42 ans''"]
    unfolding a b c by (simp add: b' c')
qed

subsection \<open>The request handler\<close>

lemma strip_Nil_iff: "strip s = [] \<longleftrightarrow> (\<forall>c \<in> set s. is_space c)"
proof
  assume "strip s = []"
  then have a: "\<forall>c \<in> set (dropWhile is_space s). is_space c"
    by (simp add: strip_def dropWhile_eq_Nil_conv)
  have "dropWhile is_space s = []"
  proof (rule ccontr)
    assume n: "dropWhile is_space s \<noteq> []"
    then have "\<not> is_space (hd (dropWhile is_space s))" by (rule hd_dropWhile)
    moreover from n have "hd (dropWhile is_space s) \<in> set (dropWhile is_space s)" by simp
    ultimately show False using a by blast
  qed
  then show "\<forall>c \<in> set s. is_space c" by (simp add: dropWhile_eq_Nil_conv)
next
  assume "\<forall>c \<in> set s. is_space c"
  then show "strip s = []" by (auto simp: strip_def dest: set_dropWhileD)
qed

text \<open>
  C7. For a POST request with action \<open>predict\<close> whose text is missing, empty or all white
  space, the handler returns the warning \<open>NoText\<close> and no result, whatever the table and
  the current year are: also on a table on which any lookup that finds a row would raise.
\<close>

theorem index_predict_blank_text:
  assumes "request_method req = ''POST''" and "action req = Some ''predict''"
    and "\<forall>c \<in> set (case user_text req of None \<Rightarrow> [] | Some t \<Rightarrow> t). is_space c"
  shows "index g cy req =
     Inr \<lparr>result = None, warning = Some NoText,
          input_text = Typed (case user_text req of None \<Rightarrow> [] | Some t \<Rightarrow> t)\<rparr>"
  using assms by (simp add: index_def predict_def strip_Nil_iff Let_def)

theorem index_predict_blank_text_witness:
  "index bare_globals 2026 blank_request =
     Inr \<lparr>result = None, warning = Some NoText,
          input_text = Typed [CHR '' '', CHR 0x09, CHR 0x0A]\<rparr> \<and>
   index bare_globals 2026 textless_request =
     Inr \<lparr>result = None, warning = Some NoText, input_text = Typed []\<rparr> \<and>
   index bare_globals 2026 france_request = Inl KeyError"
proof -
  have s: "\<forall>c \<in> set [CHR '' '', CHR 0x09, CHR 0x0A]. is_space c"
    by (simp add: is_space_def code_point_def)
  have k: "index bare_globals 2026 france_request = Inl KeyError"
    unfolding france_request_def by code_simp
  show ?thesis
    using k s index_predict_blank_text [of blank_request bare_globals 2026]
      index_predict_blank_text [of textless_request bare_globals 2026]
    by (simp add: blank_request_def textless_request_def)
qed

lemma predict_result:
  assumes "predict g cy text = Inr resp" and "result resp = Some r"
  shows "\<exists>years weeks.
      get_life_expectancy g (detect_location g text) None = Inr (Some (years, weeks)) \<and>
      r = \<lparr>location = detect_location g text, year = DEFAULT_YEAR g,
           life_expectancy_years = years, life_expectancy_weeks = py_int weeks,
           age = estimate_age cy text,
           remaining_years =
             map_option (\<lambda>a. fst (compute_remaining_life years (of_int a)))
               (estimate_age cy text),
           remaining_weeks =
             map_option (\<lambda>a. py_int (snd (compute_remaining_life years (of_int a))))
               (estimate_age cy text)\<rparr>"
proof (cases "strip text = []")
  case True
  with assms show ?thesis by (auto simp: predict_def)
next
  case False
  show ?thesis
  proof (cases "get_life_expectancy g (detect_location g text) None")
    case (Inl e)
    with assms False show ?thesis by (simp add: predict_def Let_def)
  next
    case (Inr v)
    show ?thesis
    proof (cases v)
      case None
      with assms False Inr show ?thesis by (auto simp: predict_def Let_def)
    next
      case (Some yw)
      obtain years weeks where yw: "yw = (years, weeks)" by (cases yw)
      from assms False Inr Some yw show ?thesis
        by (cases "estimate_age cy text") (auto simp: predict_def Let_def)
    qed
  qed
qed

lemma index_result:
  assumes "index g cy req = Inr resp" and "result resp = Some r"
  shows "request_method req = ''POST'' \<and> action req = Some ''predict'' \<and>
     predict g cy (case user_text req of None \<Rightarrow> [] | Some t \<Rightarrow> t) = Inr resp"
  using assms by (auto simp: index_def Let_def split: if_splits)

lemma demo_detect: "detect_location demo_globals ''J ai 30 ANS, je vis en France'' = ''France''"
  unfolding demo_globals_def by code_simp

lemma demo_age: "estimate_age cy ''J ai 30 ANS, je vis en France'' = Some 30"
proof -
  have "detect_age (lower ''J ai 30 ANS, je vis en France'') = Some 30" by code_simp
  then show ?thesis by (simp add: estimate_age_def)
qed

lemma demo_life: "get_life_expectancy demo_globals ''France'' None = Inr (Some (657 / 8, 8541 / 2))"
  unfolding get_life_expectancy_cases
  by (simp add: demo_globals_def demo_rows_def demo_row_def demo_lower demo_scan)

lemma py_int_demo: "py_int (8541 / 2) = 4270" "py_int (5421 / 2) = 2710"
  by (simp_all add: py_int_def)

lemma demo_index:
  "index demo_globals 2026 demo_request =
     Inr \<lparr>result = Some demo_analysis, warning = None,
          input_text = Typed ''J ai 30 ANS, je vis en France''\<rparr>"
proof -
  have n: "strip ''J ai 30 ANS, je vis en France'' \<noteq> []" by code_simp
  have d: "DEFAULT_YEAR demo_globals = 2023" by (simp add: demo_globals_def)
  have c: "compute_remaining_life (657 / 8 :: real) 30 = (417 / 8, 5421 / 2)"
    by (simp add: compute_remaining_life_def py_max_def)
  show ?thesis
    by (simp add: index_def demo_request_def predict_def n demo_detect demo_age demo_life
        py_int_demo d c demo_analysis_def Let_def)
qed

text \<open>
  C8 (as amended). A result comes from the \<open>predict\<close> action only, and then from a lookup
  that returned a pair. Its years field is the years value of that pair and its
  remaining years are the first component of \<open>compute_remaining_life\<close> (nothing when the
  age is unknown). Its two weeks fields are the weeks value of the pair and the second
  component of \<open>compute_remaining_life\<close>, each cut to an integer by \<open>py_int\<close>.
\<close>

theorem index_result_fields:
  assumes "index g cy req = Inr resp" and "result resp = Some r"
    and "text = (case user_text req of None \<Rightarrow> [] | Some t \<Rightarrow> t)"
  shows "request_method req = ''POST'' \<and> action req = Some ''predict'' \<and>
    (\<exists>years weeks.
      get_life_expectancy g (detect_location g text) None = Inr (Some (years, weeks)) \<and>
      life_expectancy_years r = years \<and>
      life_expectancy_weeks r = py_int weeks \<and>
      age r = estimate_age cy text \<and>
      remaining_years r =
        map_option (\<lambda>a. fst (compute_remaining_life years (of_int a))) (age r) \<and>
      remaining_weeks r =
        map_option (\<lambda>a. py_int (snd (compute_remaining_life years (of_int a)))) (age r))"
proof -
  from index_result [OF assms(1,2)] assms(3)
  have p: "predict g cy text = Inr resp" and m: "request_method req = ''POST''"
    "action req = Some ''predict''" by simp_all
  from predict_result [OF p assms(2)] m show ?thesis by auto
qed

theorem index_result_fields_witness:
  "index demo_globals 2026 demo_request =
     Inr \<lparr>result = Some demo_analysis, warning = None,
          input_text = Typed ''J ai 30 ANS, je vis en France''\<rparr> \<and>
   life_expectancy_years demo_analysis = 657 / 8 \<and>
   life_expectancy_weeks demo_analysis = py_int (8541 / 2) \<and>
   remaining_years demo_analysis = Some (fst (compute_remaining_life (657 / 8) 30)) \<and>
   remaining_weeks demo_analysis = Some (py_int (snd (compute_remaining_life (657 / 8) 30)))"
proof -
  have t: "''J ai 30 ANS, je vis en France'' =
      (case user_text demo_request of None \<Rightarrow> [] | Some t \<Rightarrow> t)"
    by (simp add: demo_request_def)
  have r: "result \<lparr>result = Some demo_analysis, warning = None,
          input_text = Typed ''J ai 30 ANS, je vis en France''\<rparr> = Some demo_analysis" by simp
  from index_result_fields [OF demo_index r t]
  obtain years weeks where
    g: "get_life_expectancy demo_globals
          (detect_location demo_globals ''J ai 30 ANS, je vis en France'') None =
        Inr (Some (years, weeks))"
    and f: "life_expectancy_years demo_analysis = years"
      "life_expectancy_weeks demo_analysis = py_int weeks"
      "age demo_analysis = estimate_age 2026 ''J ai 30 ANS, je vis en France''"
      "remaining_years demo_analysis =
         map_option (\<lambda>a. fst (compute_remaining_life years (of_int a))) (age demo_analysis)"
      "remaining_weeks demo_analysis =
         map_option (\<lambda>a. py_int (snd (compute_remaining_life years (of_int a))))
           (age demo_analysis)"
    by blast
  from g have v: "years = 657 / 8" "weeks = 8541 / 2"
    by (simp_all add: demo_detect demo_life)
  from f(3) have a: "age demo_analysis = Some 30" by (simp add: demo_age)
  from f(1,2,4,5) demo_index show ?thesis
    unfolding v a by simp
qed

text \<open>
  C8 as stated fails: the lookup returns 4270.5 weeks and the result holds 4270; the
  remaining weeks are 2710.5 and the result holds 2710.
\<close>

theorem index_weeks_truncated:
  "get_life_expectancy demo_globals ''France'' None = Inr (Some (657 / 8, 8541 / 2)) \<and>
   index demo_globals 2026 demo_request =
     Inr \<lparr>result = Some demo_analysis, warning = None,
          input_text = Typed ''J ai 30 ANS, je vis en France''\<rparr> \<and>
   life_expectancy_weeks demo_analysis = 4270 \<and>
   real_of_int (life_expectancy_weeks demo_analysis) \<noteq> 8541 / 2 \<and>
   compute_remaining_life (657 / 8 :: real) 30 = (417 / 8, 5421 / 2) \<and>
   remaining_weeks demo_analysis = Some 2710"
  using demo_life demo_index
  by (simp add: demo_analysis_def compute_remaining_life_def py_max_def)

subsection \<open>Age estimate\<close>

lemma first_candidate_find:
  "(case map f (filter (\<lambda>x. P (f x)) xs) of [] \<Rightarrow> None | a # _ \<Rightarrow> Some a) =
     find P (map f xs)"
  by (induction xs) simp_all

lemma detect_age_find:
  "detect_age t = find (\<lambda>a. 0 < a \<and> a < 120) (map int_of_digits (findall_age t))"
  using first_candidate_find [of int_of_digits "\<lambda>a. 0 < a \<and> a < 120" "findall_age t"]
  by (simp add: detect_age_def Let_def)

lemma space_not_digit: "is_space c \<Longrightarrow> \<not> is_digit c"
  by (auto simp: is_space_def is_digit_def Let_def)

lemma a_not_class: "\<not> is_digit CHR ''a''" "\<not> is_space CHR ''a''"
  by (simp_all add: is_digit_def is_space_def code_point_def)

lemma match_age_digits_long:
  assumes "length X < k" and "\<forall>c \<in> set ws. is_space c"
  shows "match_age_digits k (X @ ws @ ''ans'' @ post) = None"
proof -
  define s where "s = X @ ws @ ''ans'' @ post"
  have nd: "\<not> is_digit (s ! length X)"
  proof (cases ws)
    case Nil
    then show ?thesis by (simp add: s_def nth_append a_not_class)
  next
    case (Cons w ws')
    with assms(2) have "is_space w" by simp
    with Cons show ?thesis by (simp add: s_def nth_append space_not_digit)
  qed
  have "\<not> list_all is_digit (take k s)" if l: "length (take k s) = k"
  proof -
    from assms(1) have "take k s ! length X = s ! length X" by (rule nth_take)
    moreover from l assms(1) have "length X < length (take k s)" by (simp only:)
    then have "take k s ! length X \<in> set (take k s)" by (rule nth_mem)
    ultimately show ?thesis using nd by (auto simp: list_all_iff)
  qed
  then show ?thesis unfolding s_def [symmetric] by (auto simp: match_age_digits_def Let_def)
qed

lemma match_age_digits_exact:
  assumes "\<forall>c \<in> set X. is_digit c" and "\<forall>c \<in> set ws. is_space c"
  shows "match_age_digits (length X) (X @ ws @ ''ans'' @ post) = Some (X, post)"
proof -
  from assms(2) have "dropWhile is_space (ws @ ''ans'' @ post) = ''ans'' @ post"
    by (simp add: dropWhile_append a_not_class)
  with assms(1) show ?thesis
    by (simp add: match_age_digits_def Let_def startswith_def list_all_iff)
qed

lemma match_age_hit:
  assumes "X \<noteq> []" and "length X \<le> 3" and "\<forall>c \<in> set X. is_digit c"
    and "\<forall>c \<in> set ws. is_space c"
  shows "match_age (X @ ws @ ''ans'' @ post) = Some (X, post)"
proof -
  from assms(1,2) consider "length X = 1" | "length X = 2" | "length X = 3"
    by (cases X) (auto simp: le_Suc_eq numeral_3_eq_3)
  then show ?thesis
  proof cases
    case 1
    with match_age_digits_long [of X 3 ws post] match_age_digits_long [of X 2 ws post]
      match_age_digits_exact [of X ws post] assms(3,4)
    show ?thesis by (simp add: match_age_def)
  next
    case 2
    with match_age_digits_long [of X 3 ws post]
      match_age_digits_exact [of X ws post] assms(3,4)
    show ?thesis by (simp add: match_age_def)
  next
    case 3
    with match_age_digits_exact [of X ws post] assms(3,4)
    show ?thesis by (simp add: match_age_def)
  qed
qed

lemma digit_not_space: "is_digit d \<Longrightarrow> \<not> is_space d"
  by (auto simp: is_space_def is_digit_def Let_def)

lemma digit_not_ans: "is_digit d \<Longrightarrow> d \<notin> set ''ans''"
  by (auto simp: is_digit_def code_point_def)

lemma startswith_ans_append:
  "d \<notin> set ''ans'' \<Longrightarrow> startswith (v @ d # t) ''ans'' = startswith v ''ans''"
proof (cases v rule: match_year.cases)
  case (1 a b c e rest)
  then show ?thesis by (simp add: startswith_def)
qed (auto simp: startswith_def)

lemma startswith_ans_drop:
  "startswith v ''ans'' \<Longrightarrow> drop 3 (v @ w) = drop 3 v @ w"
  by (cases v rule: match_year.cases) (auto simp: startswith_def)

lemma dropWhile_space_append:
  "\<not> is_space d \<Longrightarrow> dropWhile is_space (u @ d # t) = dropWhile is_space u @ d # t"
  by (induction u) simp_all

lemma match_age_digits_append:
  assumes "p \<noteq> []" and "\<not> is_digit (last p)" and "is_digit d"
  shows "match_age_digits k (p @ d # t) =
     map_option (\<lambda>(g, r). (g, r @ d # t)) (match_age_digits k p)"
proof (cases "k \<le> length p")
  case True
  then have tk: "take k (p @ d # t) = take k p" and dk: "drop k (p @ d # t) = drop k p @ d # t"
    by simp_all
  have dw: "dropWhile is_space (drop k p @ d # t) = dropWhile is_space (drop k p) @ d # t"
    using assms(3) by (intro dropWhile_space_append digit_not_space)
  show ?thesis
    unfolding match_age_digits_def Let_def tk dk dw
    using startswith_ans_append [OF digit_not_ans [OF assms(3)], of "dropWhile is_space (drop k p)" t]
      startswith_ans_drop [of "dropWhile is_space (drop k p)" "d # t"]
    by auto
next
  case False
  then have 1: "match_age_digits k p = None"
    by (simp add: match_age_digits_def Let_def)
  define q where "q = p @ d # t"
  from assms(1) have "last p \<in> set p" by simp
  with False have "last p \<in> set (take k q)" by (simp add: q_def)
  with assms(2) have "\<not> list_all is_digit (take k q)"
    by (auto simp: list_all_iff)
  then have "match_age_digits k q = None"
    by (simp add: match_age_digits_def Let_def)
  with 1 show ?thesis by (simp add: q_def)
qed

lemma match_age_append:
  assumes "p \<noteq> []" and "\<not> is_digit (last p)" and "is_digit d"
  shows "match_age (p @ d # t) = map_option (\<lambda>(g, r). (g, r @ d # t)) (match_age p)"
  unfolding match_age_def match_age_digits_append [OF assms]
  by (simp split: option.splits)

lemma match_age_digits_rest:
  "match_age_digits k p = Some (g, r) \<Longrightarrow> \<exists>q. p = q @ r"
proof -
  assume m: "match_age_digits k p = Some (g, r)"
  then have r: "r = drop 3 (dropWhile is_space (drop k p))"
    by (auto simp: match_age_digits_def Let_def split: if_splits)
  have "p = take k p @ drop k p" by simp
  also have "drop k p = takeWhile is_space (drop k p) @ dropWhile is_space (drop k p)" by simp
  also have "dropWhile is_space (drop k p) =
      take 3 (dropWhile is_space (drop k p)) @ drop 3 (dropWhile is_space (drop k p))" by simp
  finally have "p = (take k p @ takeWhile is_space (drop k p) @
      take 3 (dropWhile is_space (drop k p))) @ r"
    unfolding r by simp
  then show ?thesis by blast
qed

lemma match_age_rest: "match_age p = Some (g, r) \<Longrightarrow> \<exists>q. p = q @ r"
  by (auto simp: match_age_def split: option.splits dest: match_age_digits_rest)

lemma findall_age_append:
  assumes "is_digit d"
  shows "pre = [] \<or> \<not> is_digit (last pre) \<Longrightarrow>
     findall_age (pre @ d # t) = findall_age pre @ findall_age (d # t)"
proof (induction pre rule: findall_age.induct)
  case 1
  then show ?case by simp
next
  case (2 c s)
  from "2.prems" have nd: "\<not> is_digit (last (c # s))" by simp
  note ma = match_age_append [OF _ nd assms, of t]
  show ?case
  proof (cases "match_age (c # s)")
    case None
    from nd have "s = [] \<or> \<not> is_digit (last s)" by (cases s) simp_all
    with "2.IH"(1) None have "findall_age (s @ d # t) = findall_age s @ findall_age (d # t)"
      by simp
    with None ma show ?thesis by simp
  next
    case (Some gr)
    obtain g r where gr: "gr = (g, r)" by (cases gr)
    from match_age_rest [OF Some [unfolded gr]] obtain q where q: "c # s = q @ r" by blast
    have "r = [] \<or> \<not> is_digit (last r)"
    proof (cases r)
      case Nil then show ?thesis by simp
    next
      case (Cons a r')
      with q have "last (c # s) = last r" by (simp only: last_append) simp
      with nd show ?thesis by simp
    qed
    with "2.IH"(2) Some gr
    have "findall_age (r @ d # t) = findall_age r @ findall_age (d # t)" by simp
    with Some gr ma show ?thesis by simp
  qed
qed

lemma find_append_case:
  "find P (xs @ ys) = (case find P xs of Some x \<Rightarrow> Some x | None \<Rightarrow> find P ys)"
  by (induction xs) simp_all

lemma findall_age_stated:
  assumes "pre = [] \<or> \<not> is_digit (last pre)" and "X \<noteq> []" and "length X \<le> 3"
    and "\<forall>c \<in> set X. is_digit c" and "\<forall>c \<in> set ws. is_space c"
  shows "findall_age (pre @ X @ ws @ ''ans'' @ post) = findall_age pre @ X # findall_age post"
proof -
  from assms(2) obtain x X' where X: "X = x # X'" by (cases X) auto
  with assms(4) have x: "is_digit x" by simp
  have "findall_age (X @ ws @ ''ans'' @ post) = X # findall_age post"
    using match_age_hit [OF assms(2-5), of post] unfolding X by simp
  with findall_age_append [OF x assms(1), of "X' @ ws @ ''ans'' @ post"] X
  show ?thesis by simp
qed

lemma detect_age_stated_general:
  assumes "pre = [] \<or> \<not> is_digit (last pre)" and "X \<noteq> []" and "length X \<le> 3"
    and "\<forall>c \<in> set X. is_digit c" and "\<forall>c \<in> set ws. is_space c"
  shows "detect_age (pre @ X @ ws @ ''ans'' @ post) =
     (case detect_age pre of
        Some a \<Rightarrow> Some a
      | None \<Rightarrow>
          if 0 < int_of_digits X \<and> int_of_digits X < 120 then Some (int_of_digits X)
          else detect_age post)"
  unfolding detect_age_find findall_age_stated [OF assms]
  by (simp add: find_append_case split: option.splits)

text \<open>
  C2 (as amended). \<open>estimate_age\<close> applies \<open>detect_age\<close> and \<open>detect_birth_year\<close> to the
  lower-cased text. If \<open>detect_age\<close> finds an age, that age is the result, whatever the
  birth year is. Otherwise, if a birth year \<open>y\<close> is found, the result is \<open>cy - y\<close> when
  this lies strictly between 0 and 120, and nothing when it does not. Otherwise the
  result is nothing. The age \<open>detect_age\<close> finds is the first match of its pattern, from
  the left, that reads as a number strictly between 0 and 120. Where the lower-cased
  text holds a number \<open>X\<close> of one to three digits with no digit before it, followed by
  optional white space and \<open>ans\<close>, the matches are those of the text before \<open>X\<close>, then
  \<open>X\<close>, then those of the text after \<open>ans\<close>: \<open>X\<close> is found when it is in range and no
  age is found before it.
\<close>

theorem estimate_age_first_stated_age:
  "estimate_age cy text =
     (case detect_age (lower text) of
        Some a \<Rightarrow> Some a
      | None \<Rightarrow>
          (case detect_birth_year cy (lower text) of
             Some y \<Rightarrow> if 0 < cy - y \<and> cy - y < 120 then Some (cy - y) else None
           | None \<Rightarrow> None)) \<and>
   detect_age (lower text) =
     find (\<lambda>a. 0 < a \<and> a < 120) (map int_of_digits (findall_age (lower text))) \<and>
   (\<forall>pre X ws post.
      lower text = pre @ X @ ws @ ''ans'' @ post \<and>
      (pre = [] \<or> \<not> is_digit (last pre)) \<and> X \<noteq> [] \<and> length X \<le> 3 \<and>
      (\<forall>c \<in> set X. is_digit c) \<and> (\<forall>c \<in> set ws. is_space c) \<longrightarrow>
      findall_age (lower text) = findall_age pre @ X # findall_age post \<and>
      detect_age (lower text) =
        (case detect_age pre of
           Some a \<Rightarrow> Some a
         | None \<Rightarrow>
             if 0 < int_of_digits X \<and> int_of_digits X < 120 then Some (int_of_digits X)
             else detect_age post))"
proof -
  have 1: "estimate_age cy text =
     (case detect_age (lower text) of
        Some a \<Rightarrow> Some a
      | None \<Rightarrow>
          (case detect_birth_year cy (lower text) of
             Some y \<Rightarrow> if 0 < cy - y \<and> cy - y < 120 then Some (cy - y) else None
           | None \<Rightarrow> None))"
    by (simp add: estimate_age_def Let_def split: option.splits)
  have 3: "findall_age (lower text) = findall_age pre @ X # findall_age post \<and>
      detect_age (lower text) =
        (case detect_age pre of
           Some a \<Rightarrow> Some a
         | None \<Rightarrow>
             if 0 < int_of_digits X \<and> int_of_digits X < 120 then Some (int_of_digits X)
             else detect_age post)"
    if "lower text = pre @ X @ ws @ ''ans'' @ post" "pre = [] \<or> \<not> is_digit (last pre)"
      "X \<noteq> []" "length X \<le> 3" "\<forall>c \<in> set X. is_digit c" "\<forall>c \<in> set ws. is_space c"
    for pre X ws post
    unfolding that(1)
    using findall_age_stated [OF that(2-6), of post]
      detect_age_stated_general [OF that(2-6), of post] by simp
  from 1 3 show ?thesis using detect_age_find [of "lower text"] by blast
qed

theorem estimate_age_first_stated_age_witness:
  "lower ''Ne en 1990, j ai 35 ANS'' = ''ne en 1990, j ai '' @ ''35'' @ '' '' @ ''ans'' @ [] \<and>
   detect_age ''ne en 1990, j ai '' = None \<and>
   detect_birth_year 2026 (lower ''Ne en 1990, j ai 35 ANS'') = Some 1990 \<and>
   estimate_age 2026 ''Ne en 1990, j ai 35 ANS'' = Some 35 \<and>
   lower ''5 ans et 30 ans'' = ''5 ans et '' @ ''30'' @ '' '' @ ''ans'' @ [] \<and>
   detect_age ''5 ans et '' = Some 5 \<and>
   estimate_age 2026 ''5 ans et 30 ans'' = Some 5 \<and>
   estimate_age 2026 ''Nee en 1990'' = Some 36 \<and>
   estimate_age 2026 ''Nee en 1900'' = None \<and>
   estimate_age 2026 ''Bonjour'' = None"
proof -
  note c = estimate_age_first_stated_age
  have l: "lower ''Ne en 1990, j ai 35 ANS'' =
      ''ne en 1990, j ai '' @ ''35'' @ '' '' @ ''ans'' @ []"
    "lower ''5 ans et 30 ans'' = ''5 ans et '' @ ''30'' @ '' '' @ ''ans'' @ []"
    by code_simp+
  have p: "detect_age ''ne en 1990, j ai '' = None" "detect_age ''5 ans et '' = Some 5"
    by code_simp+
  have b: "detect_birth_year 2026 (lower ''Ne en 1990, j ai 35 ANS'') = Some 1990"
    by code_simp
  have h: "\<not> is_digit (last ''ne en 1990, j ai '')" "\<not> is_digit (last ''5 ans et '')"
    "\<forall>c \<in> set ''35''. is_digit c" "\<forall>c \<in> set ''30''. is_digit c"
    "\<forall>c \<in> set '' ''. is_space c"
    "''35'' \<noteq> []" "length ''35'' \<le> 3" "''30'' \<noteq> []" "length ''30'' \<le> 3"
    by (simp_all add: is_digit_def is_space_def code_point_def)
  have v: "int_of_digits ''35'' = 35" "int_of_digits ''30'' = 30"
    by (simp_all add: int_of_digits_def digit_value_def code_point_def)
  from c [of 2026 "''Ne en 1990, j ai 35 ANS''", THEN conjunct2, THEN conjunct2,
      rule_format, of "''ne en 1990, j ai ''" "''35''" "'' ''" "[]"] l(1) h
  have "detect_age (lower ''Ne en 1990, j ai 35 ANS'') =
      (case detect_age ''ne en 1990, j ai '' of
         Some a \<Rightarrow> Some a
       | None \<Rightarrow>
           if 0 < int_of_digits ''35'' \<and> int_of_digits ''35'' < 120
           then Some (int_of_digits ''35'') else detect_age [])"
    by blast
  then have d1: "detect_age (lower ''Ne en 1990, j ai 35 ANS'') = Some 35"
    unfolding p v by simp
  from c [of 2026 "''5 ans et 30 ans''", THEN conjunct2, THEN conjunct2,
      rule_format, of "''5 ans et ''" "''30''" "'' ''" "[]"] l(2) h
  have "detect_age (lower ''5 ans et 30 ans'') =
      (case detect_age ''5 ans et '' of
         Some a \<Rightarrow> Some a
       | None \<Rightarrow>
           if 0 < int_of_digits ''30'' \<and> int_of_digits ''30'' < 120
           then Some (int_of_digits ''30'') else detect_age [])"
    by blast
  then have d2: "detect_age (lower ''5 ans et 30 ans'') = Some 5"
    unfolding p by simp
  have d: "detect_age (lower ''Nee en 1990'') = None" "detect_age (lower ''Nee en 1900'') = None"
    "detect_age (lower ''Bonjour'') = None"
    "detect_birth_year 2026 (lower ''Nee en 1990'') = Some 1990"
    "detect_birth_year 2026 (lower ''Nee en 1900'') = Some 1900"
    "detect_birth_year 2026 (lower ''Bonjour'') = None"
    by code_simp+
  from c [of 2026 "''Ne en 1990, j ai 35 ANS''"] c [of 2026 "''5 ans et 30 ans''"]
    c [of 2026 "''Nee en 1990''"] c [of 2026 "''Nee en 1900''"] c [of 2026 "''Bonjour''"]
  have e: "estimate_age 2026 ''Ne en 1990, j ai 35 ANS'' = Some 35 \<and>
     estimate_age 2026 ''5 ans et 30 ans'' = Some 5 \<and>
     estimate_age 2026 ''Nee en 1990'' = Some 36 \<and>
     estimate_age 2026 ''Nee en 1900'' = None \<and> estimate_age 2026 ''Bonjour'' = None"
    unfolding d d1 d2 by simp
  from l p b e show ?thesis by simp
qed

text \<open>
  C2 as stated fails: \<open>5ans et 30ans\<close> holds \<open>30ans\<close> and gives 5; \<open>120ans, ne en 1990\<close>
  holds \<open>20ans\<close> and gives 36, the age from the birth year.
\<close>

theorem estimate_age_not_every_stated_age:
  "contains ''5ans et 30ans'' ''30ans'' \<and> int_of_digits ''30'' = 30 \<and>
   estimate_age 2026 ''5ans et 30ans'' = Some 5 \<and>
   contains ''120ans, ne en 1990'' ''20ans'' \<and> int_of_digits ''20'' = 20 \<and>
   estimate_age 2026 ''120ans, ne en 1990'' = Some 36"
  by code_simp

end
